theory Spec2Isabelle
  imports Complex_Main
begin

section \<open>Values, promises and backend commands\<close>

text \<open>
  The front end talks to the backend only through \<^verbatim>\<open>invoke(cmd, args)\<close>, which returns a
  promise. The value a promise resolves with comes from the backend and is dynamically
  typed, so it is a JavaScript value. Numbers are modelled as reals: the comparisons
  \<^verbatim>\<open>>=\<close>, \<^verbatim>\<open><=\<close> and \<^verbatim>\<open>!=\<close> of the source agree with the order of the reals on every
  number that is not NaN, and a bound number input never delivers NaN (an empty or
  unparsable field is delivered as \<^verbatim>\<open>null\<close>).
\<close>

datatype jsval =
    JUndefined
  | JNull
  | JBool bool
  | JNum real
  | JStr string
  | JArr "jsval list"
  | JObj "(string \<times> jsval) list"

text \<open>How a promise settles: \<^verbatim>\<open>.then\<close> runs on \<open>Resolve\<close>, \<^verbatim>\<open>.catch\<close> on \<open>Reject\<close>.\<close>

datatype result = Resolve jsval | Reject jsval

text \<open>What the caller of an \<^verbatim>\<open>async function\<close> holds when the call returns.\<close>

datatype 'a promise = Fulfilled 'a | Rejected jsval

text \<open>The calls \<^verbatim>\<open>invoke("...", {...})\<close> that occur in the sources, with their arguments.\<close>

datatype command =
    IsConnected
  | Connect string "real option"
  | Init
  | Disconnect
  | GetAngles
  | GetPosition
  | Calibrate nat
  | MoveJoint int real real
  | StopJoint int

text \<open>Removing the settled promise from the list of those in flight.\<close>

definition remove_nth :: "nat \<Rightarrow> 'a list \<Rightarrow> 'a list" where
  "remove_nth k xs = take k xs @ drop (Suc k) xs"

section \<open>JointControl.svelte\<close>

text \<open>
  The component's props and local variables, and the effects it has on the outside:
  the promises of its \<^verbatim>\<open>invoke\<close> calls that have not settled yet (\<open>jc_pending\<close>), every
  \<^verbatim>\<open>invoke\<close> call it ever made (\<open>jc_invoked\<close>), and what it passed to
  \<^verbatim>\<open>console.error\<close>. The \<^verbatim>\<open>console.log\<close> lines are not modelled.
\<close>

record joint_control =
  id_prop :: int
  name_prop :: string
  angle :: real
  minAngle :: real
  maxAngle :: real
  minSpeed :: real
  maxSpeed :: real
  targetSpeed :: real
  targetAngle :: real
  angleInput :: "real option"
  speedInput :: "real option"
  jc_pending :: "command list"
  jc_invoked :: "command list"
  jc_console_errors :: "jsval list"

text \<open>The script block run at creation, with the props the parent passes.\<close>

definition JointControl ::
  "int \<Rightarrow> string \<Rightarrow> real \<Rightarrow> real \<Rightarrow> real \<Rightarrow> real \<Rightarrow> real \<Rightarrow> joint_control" where
  "JointControl i n a mna mxa mns mxs =
     \<lparr>id_prop = i, name_prop = n, angle = a,
      minAngle = mna, maxAngle = mxa, minSpeed = mns, maxSpeed = mxs,
      targetSpeed = 0, targetAngle = 0,
      angleInput = Some a, speedInput = Some 0,
      jc_pending = [], jc_invoked = [], jc_console_errors = []\<rparr>"

text \<open>The props' default values, which is what App.svelte gets: it passes id, name, angle.\<close>

definition JointControl_default :: "int \<Rightarrow> string \<Rightarrow> real \<Rightarrow> joint_control" where
  "JointControl_default i n a = JointControl i n a (- 180) 180 0 180"

text \<open>The reactive declarations (lines 21 to 23).\<close>

definition angleInputValid :: "joint_control \<Rightarrow> bool" where
  "angleInputValid s =
     (case angleInput s of None \<Rightarrow> False
      | Some a \<Rightarrow> a \<ge> minAngle s \<and> a \<le> maxAngle s)"

definition speedInputValid :: "joint_control \<Rightarrow> bool" where
  "speedInputValid s =
     (case speedInput s of None \<Rightarrow> False
      | Some v \<Rightarrow> v \<ge> minSpeed s \<and> v \<le> maxSpeed s)"

definition moving :: "joint_control \<Rightarrow> bool" where
  "moving s = (targetAngle s \<noteq> angle s)"

text \<open>\<^verbatim>\<open>invoke\<close>: the call is recorded and its promise is in flight.\<close>

definition jc_invoke :: "command \<Rightarrow> joint_control \<Rightarrow> joint_control" where
  "jc_invoke c s = s\<lparr>jc_pending := jc_pending s @ [c], jc_invoked := jc_invoked s @ [c]\<rparr>"

text \<open>
  \<^verbatim>\<open>moveTo\<close> (lines 31 to 41). It returns early on \<^verbatim>\<open>null\<close> and otherwise invokes
  \<^verbatim>\<open>move_joint\<close>; the promise chain is neither awaited nor returned, so the function's
  own promise is fulfilled as soon as the body has run.
\<close>

definition moveTo :: "real option \<Rightarrow> real option \<Rightarrow> joint_control \<Rightarrow> unit promise \<times> joint_control" where
  "moveTo a v s =
     (case a of None \<Rightarrow> (Fulfilled (), s)
      | Some a' \<Rightarrow>
          (case v of None \<Rightarrow> (Fulfilled (), s)
           | Some v' \<Rightarrow> (Fulfilled (), jc_invoke (MoveJoint (id_prop s) a' v') s)))"

text \<open>\<^verbatim>\<open>stop\<close> (lines 46 to 55).\<close>

definition stop :: "joint_control \<Rightarrow> unit promise \<times> joint_control" where
  "stop s = (Fulfilled (), jc_invoke (StopJoint (id_prop s)) s)"

text \<open>
  The \<^verbatim>\<open>.then\<close> and \<^verbatim>\<open>.catch\<close> callbacks attached to the two invocations. The callback
  of \<^verbatim>\<open>move_joint\<close> closes over the arguments of the call, which the command carries.
\<close>

fun jc_settle :: "command \<Rightarrow> result \<Rightarrow> joint_control \<Rightarrow> joint_control" where
  "jc_settle (MoveJoint j a v) (Resolve r) s = s\<lparr>targetAngle := a, targetSpeed := v\<rparr>"
| "jc_settle (MoveJoint j a v) (Reject e) s = s\<lparr>jc_console_errors := jc_console_errors s @ [e]\<rparr>"
| "jc_settle (StopJoint j) (Resolve r) s = s\<lparr>targetAngle := 0, targetSpeed := 0\<rparr>"
| "jc_settle (StopJoint j) (Reject e) s = s\<lparr>jc_console_errors := jc_console_errors s @ [e]\<rparr>"
| "jc_settle c r s = s"

text \<open>
  The markup's event handlers: the form's \<^verbatim>\<open>on:submit\<close> (line 65), the Submit button
  (lines 94 to 97) and the STOP button (line 114). A disabled button fires no click.
\<close>

definition form_submit :: "joint_control \<Rightarrow> joint_control" where
  "form_submit s =
     (if angleInputValid s \<and> speedInputValid s
      then snd (moveTo (angleInput s) (speedInput s) s) else s)"

definition click_submit :: "joint_control \<Rightarrow> joint_control" where
  "click_submit s =
     (if \<not> angleInputValid s \<or> \<not> speedInputValid s then s
      else snd (moveTo (angleInput s) (speedInput s) s))"

definition click_stop :: "joint_control \<Rightarrow> joint_control" where
  "click_stop s = (if \<not> moving s then s else snd (stop s))"

text \<open>
  Everything that can happen to a mounted component: the user edits a bound input, uses
  one of the three controls, the parent passes a new measured angle, or the promise at
  position \<open>k\<close> of those in flight settles.
\<close>

datatype jc_event =
    InputAngle "real option"
  | InputSpeed "real option"
  | FormSubmit
  | ClickSubmit
  | ClickStop
  | PropAngle real
  | JcSettled nat result

fun jc_step :: "jc_event \<Rightarrow> joint_control \<Rightarrow> joint_control" where
  "jc_step (InputAngle a) s = s\<lparr>angleInput := a\<rparr>"
| "jc_step (InputSpeed v) s = s\<lparr>speedInput := v\<rparr>"
| "jc_step FormSubmit s = form_submit s"
| "jc_step ClickSubmit s = click_submit s"
| "jc_step ClickStop s = click_stop s"
| "jc_step (PropAngle a) s = s\<lparr>angle := a\<rparr>"
| "jc_step (JcSettled k r) s =
     (if k < length (jc_pending s)
      then jc_settle (jc_pending s ! k) r (s\<lparr>jc_pending := remove_nth k (jc_pending s)\<rparr>)
      else s)"

fun jc_run :: "jc_event list \<Rightarrow> joint_control \<Rightarrow> joint_control" where
  "jc_run [] s = s"
| "jc_run (ev # evs) s = jc_run evs (jc_step ev s)"

section \<open>App.svelte\<close>

record JointInfo =
  name_info :: string
  id_info :: int

definition JOINTS :: "JointInfo list" where
  "JOINTS =
     [\<lparr>name_info = ''base'', id_info = 0\<rparr>,
      \<lparr>name_info = ''shoulder'', id_info = 1\<rparr>,
      \<lparr>name_info = ''elbow'', id_info = 2\<rparr>,
      \<lparr>name_info = ''forearm roll'', id_info = 3\<rparr>,
      \<lparr>name_info = ''wrist pitch'', id_info = 4\<rparr>,
      \<lparr>name_info = ''wrist roll'', id_info = 5\<rparr>]"

text \<open>
  The component's variables and its effects: \<open>intervals\<close> counts the timers started with
  \<^verbatim>\<open>setInterval\<close> (none is ever cleared), \<open>pending\<close> holds the \<^verbatim>\<open>invoke\<close> promises in
  flight, \<open>invoked\<close> every \<^verbatim>\<open>invoke\<close> call made so far, \<open>alerts\<close> what was shown with
  \<^verbatim>\<open>window.alert\<close> and \<open>console_errors\<close> what was passed to \<^verbatim>\<open>console.error\<close>.
\<close>

record app =
  angles :: "jsval list"
  connected_flag :: bool
  initialized :: bool
  portName :: string
  baudRate :: "real option"
  intervals :: nat
  pending :: "command list"
  invoked :: "command list"
  alerts :: "jsval list"
  console_errors :: "jsval list"

definition invoke :: "command \<Rightarrow> app \<Rightarrow> app" where
  "invoke c s = s\<lparr>pending := pending s @ [c], invoked := invoked s @ [c]\<rparr>"

text \<open>JavaScript truthiness, for \<^verbatim>\<open>isConnected ? true : false\<close>.\<close>

fun truthy :: "jsval \<Rightarrow> bool" where
  "truthy JUndefined = False"
| "truthy JNull = False"
| "truthy (JBool b) = b"
| "truthy (JNum x) = (x \<noteq> 0)"
| "truthy (JStr s) = (s \<noteq> [])"
| "truthy (JArr xs) = True"
| "truthy (JObj kvs) = True"

text \<open>
  An indexed write \<^verbatim>\<open>xs[i] = v\<close>: JavaScript extends the array when the index is past
  its end; the slots in between read as \<^verbatim>\<open>undefined\<close>.
\<close>

definition array_set :: "jsval list \<Rightarrow> nat \<Rightarrow> jsval \<Rightarrow> jsval list" where
  "array_set xs i v =
     (if i < length xs then xs[i := v]
      else xs @ replicate (i - length xs) JUndefined @ [v])"

text \<open>
  \<^verbatim>\<open>received.forEach((angle, i) => { angles[i] = angle; })\<close> of lines 47 to 49, from
  index \<open>i\<close> on: the elements of \<open>received\<close> are written into the array \<open>arr\<close>
  (the component's \<^verbatim>\<open>angles\<close>).
\<close>

fun forEach_assign :: "jsval list \<Rightarrow> nat \<Rightarrow> jsval list \<Rightarrow> jsval list" where
  "forEach_assign [] i arr = arr"
| "forEach_assign (a # received) i arr = forEach_assign received (Suc i) (array_set arr i a)"

text \<open>
  The \<^verbatim>\<open>.then\<close> callback of \<^verbatim>\<open>get_angles\<close> (lines 45 to 52). The final
  \<^verbatim>\<open>angles = [...angles]\<close> copies the array.
\<close>

definition get_angles_then :: "jsval \<Rightarrow> app \<Rightarrow> app" where
  "get_angles_then received s =
     (case received of
        JArr xs \<Rightarrow> s\<lparr>angles := forEach_assign xs 0 (angles s)\<rparr>
      | _ \<Rightarrow> s)"

text \<open>\<^verbatim>\<open>init\<close> (lines 36 to 60) up to the point where it has invoked the backend.\<close>

definition init :: "app \<Rightarrow> app" where
  "init s = invoke Init s"

text \<open>
  The callbacks attached to each \<^verbatim>\<open>invoke\<close>. \<^verbatim>\<open>is_connected\<close> (lines 23 to 28) and
  \<^verbatim>\<open>disconnect\<close> (line 58) have no \<^verbatim>\<open>.catch\<close>, \<^verbatim>\<open>calibrate\<close> (line 68) has no callback
  at all. A successful \<^verbatim>\<open>init\<close> starts the polling timer (line 43).
\<close>

fun app_settle :: "command \<Rightarrow> result \<Rightarrow> app \<Rightarrow> app" where
  "app_settle IsConnected (Resolve isConnected) s =
     (if truthy isConnected then init (s\<lparr>connected_flag := True\<rparr>)
      else s\<lparr>connected_flag := False\<rparr>)"
| "app_settle (Connect p b) (Resolve r) s = init (s\<lparr>connected_flag := True\<rparr>)"
| "app_settle (Connect p b) (Reject e) s = s\<lparr>alerts := alerts s @ [e]\<rparr>"
| "app_settle Init (Resolve r) s = s\<lparr>initialized := True, intervals := Suc (intervals s)\<rparr>"
| "app_settle Init (Reject e) s = invoke Disconnect (s\<lparr>alerts := alerts s @ [e]\<rparr>)"
| "app_settle Disconnect (Resolve r) s = s\<lparr>connected_flag := False\<rparr>"
| "app_settle GetAngles (Resolve received) s = get_angles_then received s"
| "app_settle GetAngles (Reject e) s = s\<lparr>console_errors := console_errors s @ [e]\<rparr>"
| "app_settle c r s = s"

text \<open>
  What can happen to the mounted component: a promise in flight settles, a polling timer
  fires, the user presses Connect (rendered only while not connected) or Calibrate All
  (rendered only while connected and initialized), or edits one of the two bound inputs
  (rendered only while not connected).
\<close>

datatype app_event =
    Settled nat result
  | Tick
  | ClickConnect
  | ClickCalibrate
  | InputPortName string
  | InputBaudRate "real option"

fun app_step :: "app_event \<Rightarrow> app \<Rightarrow> app" where
  "app_step (Settled k r) s =
     (if k < length (pending s)
      then app_settle (pending s ! k) r (s\<lparr>pending := remove_nth k (pending s)\<rparr>)
      else s)"
| "app_step Tick s = (if 0 < intervals s then invoke GetAngles s else s)"
| "app_step ClickConnect s =
     (if connected_flag s then s else invoke (Connect (portName s) (baudRate s)) s)"
| "app_step ClickCalibrate s =
     (if connected_flag s \<and> initialized s then invoke (Calibrate 63) s else s)"
| "app_step (InputPortName p) s = (if connected_flag s then s else s\<lparr>portName := p\<rparr>)"
| "app_step (InputBaudRate b) s = (if connected_flag s then s else s\<lparr>baudRate := b\<rparr>)"

fun app_run :: "app_event list \<Rightarrow> app \<Rightarrow> app" where
  "app_run [] s = s"
| "app_run (ev # evs) s = app_run evs (app_step ev s)"

text \<open>The state once the script block has run: \<^verbatim>\<open>is_connected\<close> has been invoked.\<close>

definition App :: app where
  "App =
     invoke IsConnected
       \<lparr>angles = replicate (length JOINTS) (JNum 0),
        connected_flag = False, initialized = False,
        portName = ''/dev/ttyCobot0'', baudRate = Some 115200,
        intervals = 0, pending = [], invoked = [], alerts = [], console_errors = []\<rparr>"

text \<open>The number of telemetry fetches in flight.\<close>

definition fetches_in_flight :: "app \<Rightarrow> nat" where
  "fetches_in_flight s = length (filter (\<lambda>c. c = GetAngles) (pending s))"

section \<open>The two earlier versions of App.svelte\<close>

text \<open>
  Both earlier versions poll with \<^verbatim>\<open>get_position\<close>, and the \<^verbatim>\<open>.then\<close> callback names
  its parameter \<^verbatim>\<open>angles\<close>, like the component's variable:
  \<^verbatim>\<open>(angles) => { if (Array.isArray(angles)) { angles.forEach((angle, i) => { angles[i] = angle; }); } }\<close>.
  Inside the callback every \<^verbatim>\<open>angles\<close> is the parameter. \<^verbatim>\<open>forEach\<close> visits the
  indices below the length the array had at the start, reading each element when it
  gets there; here the callback writes into the very array being visited.
\<close>

fun forEach_self :: "nat \<Rightarrow> nat \<Rightarrow> jsval list \<Rightarrow> jsval list" where
  "forEach_self i 0 arr = arr"
| "forEach_self i (Suc n) arr =
     forEach_self (Suc i) n (if i < length arr then array_set arr i (arr ! i) else arr)"

text \<open>
  The callback takes the fetched value and the component's array and returns both as it
  leaves them.
\<close>

definition get_position_then :: "jsval \<Rightarrow> jsval list \<Rightarrow> jsval \<times> jsval list" where
  "get_position_then angles_param angles_outer =
     (case angles_param of
        JArr xs \<Rightarrow> (JArr (forEach_self 0 (length xs) xs), angles_outer)
      | _ \<Rightarrow> (angles_param, angles_outer))"

subsection \<open>The version that connects by itself and retries\<close>

text \<open>
  \<open>timeouts_v1\<close> counts the \<^verbatim>\<open>setTimeout(init, 1000)\<close> timers that have not fired yet.
\<close>

record app_v1 =
  angles_v1 :: "jsval list"
  initialized_v1 :: bool
  intervals_v1 :: nat
  timeouts_v1 :: nat
  pending_v1 :: "command list"
  invoked_v1 :: "command list"
  console_errors_v1 :: "jsval list"

definition invoke_v1 :: "command \<Rightarrow> app_v1 \<Rightarrow> app_v1" where
  "invoke_v1 c s = s\<lparr>pending_v1 := pending_v1 s @ [c], invoked_v1 := invoked_v1 s @ [c]\<rparr>"

text \<open>\<^verbatim>\<open>init\<close> up to its first \<^verbatim>\<open>await\<close>.\<close>

definition init_v1 :: "app_v1 \<Rightarrow> app_v1" where
  "init_v1 s = invoke_v1 (Connect ''/dev/ttyCobot0'' (Some 115200)) s"

text \<open>
  When \<^verbatim>\<open>connect\<close> settles, either way, \<^verbatim>\<open>init\<close> goes on and invokes the backend's
  \<^verbatim>\<open>init\<close>; when that fails, the error is logged and \<^verbatim>\<open>init\<close> is scheduled again.
\<close>

fun settle_v1 :: "command \<Rightarrow> result \<Rightarrow> app_v1 \<Rightarrow> app_v1" where
  "settle_v1 (Connect p b) (Resolve r) s = invoke_v1 Init s"
| "settle_v1 (Connect p b) (Reject e) s =
     invoke_v1 Init (s\<lparr>console_errors_v1 := console_errors_v1 s @ [e]\<rparr>)"
| "settle_v1 Init (Resolve r) s =
     s\<lparr>initialized_v1 := True, intervals_v1 := Suc (intervals_v1 s)\<rparr>"
| "settle_v1 Init (Reject e) s =
     s\<lparr>console_errors_v1 := console_errors_v1 s @ [e], timeouts_v1 := Suc (timeouts_v1 s)\<rparr>"
| "settle_v1 GetPosition (Resolve r) s = s\<lparr>angles_v1 := snd (get_position_then r (angles_v1 s))\<rparr>"
| "settle_v1 GetPosition (Reject e) s = s\<lparr>console_errors_v1 := console_errors_v1 s @ [e]\<rparr>"
| "settle_v1 c r s = s"

datatype event_v1 = Settled_v1 nat result | Tick_v1 | Timeout_v1

fun step_v1 :: "event_v1 \<Rightarrow> app_v1 \<Rightarrow> app_v1" where
  "step_v1 (Settled_v1 k r) s =
     (if k < length (pending_v1 s)
      then settle_v1 (pending_v1 s ! k) r (s\<lparr>pending_v1 := remove_nth k (pending_v1 s)\<rparr>)
      else s)"
| "step_v1 Tick_v1 s = (if 0 < intervals_v1 s then invoke_v1 GetPosition s else s)"
| "step_v1 Timeout_v1 s =
     (if 0 < timeouts_v1 s then init_v1 (s\<lparr>timeouts_v1 := timeouts_v1 s - 1\<rparr>) else s)"

fun run_v1 :: "event_v1 list \<Rightarrow> app_v1 \<Rightarrow> app_v1" where
  "run_v1 [] s = s"
| "run_v1 (ev # evs) s = run_v1 evs (step_v1 ev s)"

text \<open>The state once the script block has run: it ends with the call \<^verbatim>\<open>init()\<close>.\<close>

definition App_v1 :: app_v1 where
  "App_v1 =
     init_v1
       \<lparr>angles_v1 = replicate (length JOINTS) (JNum 0), initialized_v1 = False,
        intervals_v1 = 0, timeouts_v1 = 0,
        pending_v1 = [], invoked_v1 = [], console_errors_v1 = []\<rparr>"

subsection \<open>The version that only polls\<close>

text \<open>The script block starts the one polling timer itself, so there is no counter.\<close>

record app_v2 =
  angles_v2 :: "jsval list"
  pending_v2 :: "command list"
  invoked_v2 :: "command list"
  console_errors_v2 :: "jsval list"

definition invoke_v2 :: "command \<Rightarrow> app_v2 \<Rightarrow> app_v2" where
  "invoke_v2 c s = s\<lparr>pending_v2 := pending_v2 s @ [c], invoked_v2 := invoked_v2 s @ [c]\<rparr>"

fun settle_v2 :: "command \<Rightarrow> result \<Rightarrow> app_v2 \<Rightarrow> app_v2" where
  "settle_v2 GetPosition (Resolve r) s = s\<lparr>angles_v2 := snd (get_position_then r (angles_v2 s))\<rparr>"
| "settle_v2 GetPosition (Reject e) s = s\<lparr>console_errors_v2 := console_errors_v2 s @ [e]\<rparr>"
| "settle_v2 c r s = s"

datatype event_v2 = Settled_v2 nat result | Tick_v2

fun step_v2 :: "event_v2 \<Rightarrow> app_v2 \<Rightarrow> app_v2" where
  "step_v2 (Settled_v2 k r) s =
     (if k < length (pending_v2 s)
      then settle_v2 (pending_v2 s ! k) r (s\<lparr>pending_v2 := remove_nth k (pending_v2 s)\<rparr>)
      else s)"
| "step_v2 Tick_v2 s = invoke_v2 GetPosition s"

fun run_v2 :: "event_v2 list \<Rightarrow> app_v2 \<Rightarrow> app_v2" where
  "run_v2 [] s = s"
| "run_v2 (ev # evs) s = run_v2 evs (step_v2 ev s)"

definition App_v2 :: app_v2 where
  "App_v2 =
     \<lparr>angles_v2 = replicate (length JOINTS) (JNum 0),
      pending_v2 = [], invoked_v2 = [], console_errors_v2 = []\<rparr>"

section \<open>The calibration request\<close>

text \<open>
  The front end has one calibration call, the Calibrate All button with the constant
  mask \<^verbatim>\<open>0b111111\<close>; the command behind \<^verbatim>\<open>invoke("calibrate", ...)\<close> is not part of
  the front end's sources.
\<close>

text \<open>
  Modelled from the spec: the error type of the dispatcher operations, which is missing
  from the sources at hand. A command error is a validation failure (local, no backend
  contact) or a backend rejection (after contact).
\<close>

datatype CommandError = ValidationFailure | BackendRejection jsval

text \<open>
  Modelled from the spec: the dispatcher operation \<^verbatim>\<open>calibrate(joint_mask)\<close>, which is
  missing from the sources at hand. The mask is a bitset (bit \<open>i\<close> selects joint \<open>i\<close>);
  the call fails if the mask selects no joints or references an out-of-range index, and
  otherwise submits a single calibration request covering all selected joints. The
  result is the error, or the list of the requests submitted to the backend.
\<close>

definition calibrate :: "nat \<Rightarrow> CommandError + command list" where
  "calibrate joint_mask =
     (if joint_mask = 0 \<or> drop_bit (length JOINTS) joint_mask \<noteq> 0
      then Inl ValidationFailure
      else Inr [Calibrate joint_mask])"

text \<open>
  Modelled from the spec: the reading of a mask, which is missing from the sources at
  hand. Bit \<open>i\<close> of the mask selects joint \<open>i\<close>; these are the joints selected among
  the first \<open>n\<close>.
\<close>

definition selected_joints :: "nat \<Rightarrow> nat \<Rightarrow> nat list" where
  "selected_joints n joint_mask = filter (bit joint_mask) [0..<n]"

section \<open>Invariants\<close>

text \<open>
  A \<^verbatim>\<open>move_joint\<close> call in flight carries an angle within the bounds \<open>mn\<close> and \<open>mx\<close>.
\<close>

fun move_ok :: "real \<Rightarrow> real \<Rightarrow> command \<Rightarrow> bool" where
  "move_ok mn mx (MoveJoint j a v) = (mn \<le> a \<and> a \<le> mx)"
| "move_ok mn mx c = True"

text \<open>
  The commanded angle of a joint control is zero or within the bounds, and so is the
  angle of every move still in flight.
\<close>

definition jc_inv :: "joint_control \<Rightarrow> bool" where
  "jc_inv s =
     ((targetAngle s = 0 \<or> (minAngle s \<le> targetAngle s \<and> targetAngle s \<le> maxAngle s)) \<and>
      list_all (move_ok (minAngle s) (maxAngle s)) (jc_pending s))"

text \<open>
  In App.svelte every promise in flight belongs to a call that was made, a telemetry
  fetch was only made with a polling timer running, a timer only runs once
  \<open>initialized\<close> is set, and that is only set after \<^verbatim>\<open>init\<close> was invoked.
\<close>

definition app_inv :: "app \<Rightarrow> bool" where
  "app_inv s =
     (set (pending s) \<subseteq> set (invoked s) \<and>
      (GetAngles \<in> set (invoked s) \<longrightarrow> 0 < intervals s) \<and>
      (0 < intervals s \<longrightarrow> initialized s) \<and>
      (initialized s \<longrightarrow> Init \<in> set (invoked s)))"

section \<open>Properties of JointControl.svelte\<close>

subsection \<open>Auxiliary facts\<close>

lemma list_all_remove_nth: "list_all P xs \<Longrightarrow> list_all P (remove_nth k xs)"
  unfolding remove_nth_def list_all_iff by (auto dest: in_set_takeD in_set_dropD)

lemma set_remove_nth: "set (remove_nth k xs) \<subseteq> set xs"
  unfolding remove_nth_def by (auto dest: in_set_takeD in_set_dropD)

lemma jc_settle_bounds [simp]:
  "minAngle (jc_settle c r s) = minAngle s" "maxAngle (jc_settle c r s) = maxAngle s"
  by (cases "(c, r, s)" rule: jc_settle.cases; simp)+

lemma jc_settle_pending [simp]: "jc_pending (jc_settle c r s) = jc_pending s"
  by (cases "(c, r, s)" rule: jc_settle.cases) simp_all

lemma jc_step_bounds [simp]:
  "minAngle (jc_step ev s) = minAngle s" "maxAngle (jc_step ev s) = maxAngle s"
  by (cases ev; simp add: form_submit_def click_submit_def click_stop_def moveTo_def stop_def
      jc_invoke_def split: option.splits)+

lemma jc_run_bounds [simp]:
  "minAngle (jc_run evs s) = minAngle s" "maxAngle (jc_run evs s) = maxAngle s"
  by (induction evs arbitrary: s; simp)+

lemma jc_settle_target:
  assumes "move_ok (minAngle s) (maxAngle s) c"
    and "targetAngle s = 0 \<or> (minAngle s \<le> targetAngle s \<and> targetAngle s \<le> maxAngle s)"
  shows "targetAngle (jc_settle c r s) = 0 \<or>
     (minAngle s \<le> targetAngle (jc_settle c r s) \<and> targetAngle (jc_settle c r s) \<le> maxAngle s)"
  using assms by (cases "(c, r, s)" rule: jc_settle.cases) simp_all

lemma moveTo_inv:
  assumes "jc_inv s" "angleInputValid s"
  shows "jc_inv (snd (moveTo (angleInput s) (speedInput s) s))"
  using assms
  by (auto simp: jc_inv_def moveTo_def jc_invoke_def angleInputValid_def split: option.splits)

lemma jc_settled_inv:
  assumes inv: "jc_inv s" and k: "k < length (jc_pending s)"
  shows "jc_inv (jc_settle (jc_pending s ! k) r (s\<lparr>jc_pending := remove_nth k (jc_pending s)\<rparr>))"
proof -
  let ?s1 = "s\<lparr>jc_pending := remove_nth k (jc_pending s)\<rparr>"
  from inv k have c: "move_ok (minAngle ?s1) (maxAngle ?s1) (jc_pending s ! k)"
    by (simp add: jc_inv_def list_all_length)
  from inv have t: "targetAngle ?s1 = 0 \<or> (minAngle ?s1 \<le> targetAngle ?s1 \<and> targetAngle ?s1 \<le> maxAngle ?s1)"
    by (simp add: jc_inv_def)
  from inv have p: "list_all (move_ok (minAngle s) (maxAngle s)) (remove_nth k (jc_pending s))"
    by (simp add: jc_inv_def list_all_remove_nth)
  from jc_settle_target[OF c t] p show ?thesis
    by (simp add: jc_inv_def)
qed

lemma jc_step_inv: "jc_inv s \<Longrightarrow> jc_inv (jc_step ev s)"
proof (cases ev)
  case (JcSettled k r)
  assume "jc_inv s"
  with JcSettled show ?thesis by (simp add: jc_settled_inv)
next
  case FormSubmit
  assume "jc_inv s"
  with FormSubmit show ?thesis by (simp add: form_submit_def moveTo_inv)
next
  case ClickSubmit
  assume "jc_inv s"
  with ClickSubmit show ?thesis by (simp add: click_submit_def moveTo_inv)
next
  case ClickStop
  assume "jc_inv s"
  with ClickStop show ?thesis
    by (simp add: click_stop_def stop_def jc_invoke_def jc_inv_def)
qed (simp_all add: jc_inv_def)

lemma jc_run_inv: "jc_inv s \<Longrightarrow> jc_inv (jc_run evs s)"
  by (induction evs arbitrary: s) (simp_all add: jc_step_inv)

lemma JointControl_inv: "jc_inv (JointControl i n a mna mxa mns mxs)"
  by (simp add: jc_inv_def JointControl_def)



lemma jc_step_quiet:
  "(\<forall>k r. jev \<noteq> JcSettled k r) \<longrightarrow> jc_console_errors (jc_step jev js) = jc_console_errors js"
  by (cases jev) (simp_all add: form_submit_def click_submit_def click_stop_def moveTo_def stop_def
      jc_invoke_def split: option.splits)

subsection \<open>Validation of a move (C1)\<close>




subsection \<open>The commanded angle stays within the bounds (C2)\<close>

text \<open>
  C2. Whatever happens to a joint control after its creation (edits of the inputs,
  submissions, presses of STOP, new measured angles, backend answers in any order), a
  commanded angle different from zero lies within the joint's bounds. \<^verbatim>\<open>moveTo\<close> is
  local to the component and is only called by the two guarded submit handlers; the
  bounds are props that App.svelte never passes, so they keep their first values.
\<close>

theorem commanded_angle_in_bounds:
  "targetAngle (jc_run evs (JointControl i n a mna mxa mns mxs)) \<noteq> 0 \<longrightarrow>
     mna \<le> targetAngle (jc_run evs (JointControl i n a mna mxa mns mxs)) \<and>
     targetAngle (jc_run evs (JointControl i n a mna mxa mns mxs)) \<le> mxa"
proof -
  let ?s = "jc_run evs (JointControl i n a mna mxa mns mxs)"
  have "jc_inv ?s" by (rule jc_run_inv[OF JointControl_inv])
  moreover have "minAngle ?s = mna" "maxAngle ?s = mxa"
    by (simp_all add: JointControl_def)
  ultimately show ?thesis by (auto simp: jc_inv_def)
qed

text \<open>An acknowledged move of the elbow to 45 degrees.\<close>

theorem commanded_angle_in_bounds_witness:
  "targetAngle (jc_run [InputAngle (Some 45), InputSpeed (Some 30), ClickSubmit, JcSettled 0 (Resolve JNull)]
      (JointControl_default 2 ''elbow'' 0)) = 45 \<and>
   - 180 \<le> targetAngle (jc_run [InputAngle (Some 45), InputSpeed (Some 30), ClickSubmit, JcSettled 0 (Resolve JNull)]
      (JointControl_default 2 ''elbow'' 0)) \<and>
   targetAngle (jc_run [InputAngle (Some 45), InputSpeed (Some 30), ClickSubmit, JcSettled 0 (Resolve JNull)]
      (JointControl_default 2 ''elbow'' 0)) \<le> 180"
  using commanded_angle_in_bounds[of "[InputAngle (Some 45), InputSpeed (Some 30), ClickSubmit, JcSettled 0 (Resolve JNull)]"
      2 "''elbow''" 0 "- 180" 180 0 180]
  by (simp add: JointControl_default_def JointControl_def click_submit_def angleInputValid_def
      speedInputValid_def moveTo_def jc_invoke_def remove_nth_def)

subsection \<open>Commanded values change on acknowledgement only (C4)\<close>




subsection \<open>Stopping a joint (C5)\<close>

text \<open>
  C5. \<^verbatim>\<open>stop\<close> tests nothing: whether the joint is moving or idle, it sends
  \<^verbatim>\<open>stop_joint\<close> for the joint to the backend, and once the backend acknowledges, the
  commanded angle and the commanded speed are both 0, whatever they were and whatever
  happened in between. (The STOP button of the markup is disabled while the joint is not
  moving; the function has no such test.)
\<close>

theorem stop_never_refused:
  "fst (stop s) = Fulfilled () \<and>
   jc_invoked (snd (stop s)) = jc_invoked s @ [StopJoint (id_prop s)] \<and>
   jc_pending (snd (stop s)) = jc_pending s @ [StopJoint (id_prop s)] \<and>
   targetAngle (jc_step (JcSettled (length (jc_pending s)) (Resolve r)) (snd (stop s))) = 0 \<and>
   targetSpeed (jc_step (JcSettled (length (jc_pending s)) (Resolve r)) (snd (stop s))) = 0 \<and>
   targetAngle (jc_settle (StopJoint j) (Resolve r) t) = 0 \<and>
   targetSpeed (jc_settle (StopJoint j) (Resolve r) t) = 0"
  by (simp add: stop_def jc_invoke_def remove_nth_def)

text \<open>Stopping a joint that is idle.\<close>

theorem stop_never_refused_witness:
  "\<not> moving (JointControl_default 0 ''base'' 0) \<and>
   jc_invoked (snd (stop (JointControl_default 0 ''base'' 0))) = [StopJoint 0] \<and>
   targetAngle (jc_step (JcSettled 0 (Resolve JNull)) (snd (stop (JointControl_default 0 ''base'' 0)))) = 0"
  using stop_never_refused [of "JointControl_default 0 ''base'' 0" JNull 0 "JointControl_default 0 ''base'' 0"]
  by (simp add: JointControl_default_def JointControl_def moving_def)

section \<open>Properties of App.svelte\<close>

subsection \<open>Auxiliary facts\<close>

lemma array_set_at_end:
  "i \<le> length arr \<Longrightarrow> array_set arr i a = take i arr @ a # drop (Suc i) arr"
  by (cases "i < length arr") (simp_all add: array_set_def upd_conv_take_nth_drop)

lemma forEach_assign_eq:
  "i \<le> length arr \<Longrightarrow> forEach_assign xs i arr = take i arr @ xs @ drop (i + length xs) arr"
proof (induction xs arbitrary: i arr)
  case Nil
  then show ?case by simp
next
  case (Cons a xs)
  let ?arr = "take i arr @ a # drop (Suc i) arr"
  from Cons.prems have len: "Suc i \<le> length ?arr" by simp
  have tk: "take (Suc i) ?arr = take i arr @ [a]"
    using Cons.prems by simp
  have dr: "drop (Suc i + length xs) ?arr = drop (i + length (a # xs)) arr"
    using Cons.prems by (simp add: min_def ac_simps)
  have "forEach_assign (a # xs) i arr = forEach_assign xs (Suc i) ?arr"
    using Cons.prems by (simp add: array_set_at_end)
  also have "\<dots> = take (Suc i) ?arr @ xs @ drop (Suc i + length xs) ?arr"
    by (rule Cons.IH[OF len])
  finally show ?case by (simp only: tk dr) simp
qed

text \<open>The state after \<^verbatim>\<open>is_connected\<close> answered true and \<^verbatim>\<open>init\<close> succeeded.\<close>

lemma app_ready:
  "app_run [Settled 0 (Resolve (JBool True)), Settled 0 (Resolve JNull)] App =
     \<lparr>angles = [JNum 0, JNum 0, JNum 0, JNum 0, JNum 0, JNum 0], connected_flag = True,
      initialized = True, portName = ''/dev/ttyCobot0'', baudRate = Some 115200, intervals = 1,
      pending = [], invoked = [IsConnected, Init], alerts = [], console_errors = []\<rparr>"
  by (simp add: App_def JOINTS_def invoke_def init_def remove_nth_def)

lemma app_settle_inv:
  assumes "app_inv s" "c \<in> set (invoked s)"
  shows "app_inv (app_settle c r s)"
  using assms
  by (cases "(c, r, s)" rule: app_settle.cases)
     (auto simp: app_inv_def invoke_def init_def get_angles_then_def split: jsval.splits)

lemma app_step_inv: "app_inv s \<Longrightarrow> app_inv (app_step ev s)"
proof (cases ev)
  case (Settled k r)
  assume inv: "app_inv s"
  show ?thesis
  proof (cases "k < length (pending s)")
    case True
    let ?s1 = "s\<lparr>pending := remove_nth k (pending s)\<rparr>"
    from inv have "app_inv ?s1"
      using set_remove_nth[of k "pending s"] by (auto simp: app_inv_def)
    moreover from inv True have "pending s ! k \<in> set (invoked ?s1)"
      by (auto simp: app_inv_def)
    ultimately have "app_inv (app_settle (pending s ! k) r ?s1)"
      by (rule app_settle_inv)
    with True Settled show ?thesis by simp
  next
    case False
    with inv Settled show ?thesis by simp
  qed
qed (auto simp: app_inv_def invoke_def)

lemma app_run_inv: "app_inv s \<Longrightarrow> app_inv (app_run evs s)"
  by (induction evs arbitrary: s) (simp_all add: app_step_inv)

lemma App_inv: "app_inv App"
  by (simp add: app_inv_def App_def invoke_def)

lemma app_settle_intervals:
  "intervals (app_settle c r s) \<noteq> intervals s \<Longrightarrow> c = Init \<and> (\<exists>v. r = Resolve v)"
  by (cases "(c, r, s)" rule: app_settle.cases)
     (auto simp: invoke_def init_def get_angles_then_def split: jsval.splits if_splits)

lemma app_settle_calls_init:
  "count_list (invoked (app_settle c r s)) Init \<noteq> count_list (invoked s) Init \<Longrightarrow>
     \<exists>v. r = Resolve v \<and> (c = IsConnected \<and> truthy v \<or> (\<exists>p b. c = Connect p b))"
  by (cases "(c, r, s)" rule: app_settle.cases)
     (auto simp: invoke_def init_def get_angles_then_def split: jsval.splits if_splits)

lemma ticks_accumulate:
  "0 < intervals s \<Longrightarrow> fetches_in_flight (app_run (replicate n Tick) s) = fetches_in_flight s + n"
  by (induction n arbitrary: s) (simp_all add: invoke_def fetches_in_flight_def)

lemma app_settle_intervals_mono: "intervals s \<le> intervals (app_settle c r s)"
  by (cases "(c, r, s)" rule: app_settle.cases)
     (simp_all add: invoke_def init_def get_angles_then_def split: jsval.splits)

lemma app_step_intervals_mono: "intervals s \<le> intervals (app_step ev s)"
proof (cases ev)
  case (Settled k r)
  then show ?thesis
    using app_settle_intervals_mono[of "s\<lparr>pending := remove_nth k (pending s)\<rparr>" "pending s ! k" r]
    by simp
qed (simp_all add: invoke_def)

lemma app_run_intervals_mono: "intervals s \<le> intervals (app_run evs s)"
proof (induction evs arbitrary: s)
  case Nil
  show ?case by simp
next
  case (Cons ev evs)
  have "intervals s \<le> intervals (app_step ev s)" by (rule app_step_intervals_mono)
  also have "\<dots> \<le> intervals (app_run evs (app_step ev s))" by (rule Cons.IH)
  finally show ?case by simp
qed

lemma app_step_quiet:
  "(\<forall>k r. ev \<noteq> Settled k r) \<longrightarrow>
     alerts (app_step ev s) = alerts s \<and> console_errors (app_step ev s) = console_errors s"
  by (cases ev) (simp_all add: invoke_def)


lemma stuck_step:
  "connected_flag s \<Longrightarrow> \<not> initialized s \<Longrightarrow> pending s = [] \<Longrightarrow> intervals s = 0 \<Longrightarrow>
     app_step ev s = s"
  by (cases ev) simp_all

lemma stuck_run:
  "connected_flag s \<Longrightarrow> \<not> initialized s \<Longrightarrow> pending s = [] \<Longrightarrow> intervals s = 0 \<Longrightarrow>
     app_run evs s = s"
  by (induction evs) (simp_all add: stuck_step)

subsection \<open>What a telemetry fetch does to the angles (C3)\<close>

text \<open>
  C3, as amended. The callback of a telemetry fetch does not compare the length of the
  fetched array with the number of joints. A fetched array overwrites the measured
  angles from index 0 up to its own length and leaves the joints beyond its length as
  they were (a longer array makes the angle array longer); a fetched value that is not
  an array is discarded and leaves every measured angle unchanged. A fetched array of
  the same length as the angle array replaces all measured angles, within the one
  callback.
\<close>

theorem fetch_overwrites_prefix:
  "get_angles_then (JArr xs) s = s\<lparr>angles := xs @ drop (length xs) (angles s)\<rparr> \<and>
   (length xs = length (angles s) \<longrightarrow> angles (get_angles_then (JArr xs) s) = xs) \<and>
   ((\<forall>ys. received \<noteq> JArr ys) \<longrightarrow> get_angles_then received s = s)"
  by (cases received) (simp_all add: get_angles_then_def forEach_assign_eq)

text \<open>A fetch of six angles, and a fetch that answers with a string.\<close>

theorem fetch_overwrites_prefix_witness:
  "angles (get_angles_then (JArr [JNum 1, JNum 2, JNum 3, JNum 4, JNum 5, JNum 6]) App) =
     [JNum 1, JNum 2, JNum 3, JNum 4, JNum 5, JNum 6] \<and>
   get_angles_then (JStr ''none'') App = App"
  using fetch_overwrites_prefix [of "[JNum 1, JNum 2, JNum 3, JNum 4, JNum 5, JNum 6]" App "JStr ''none''"]
  by (simp add: App_def JOINTS_def invoke_def)

text \<open>
  C3 as stated fails: once polling runs, a fetch that answers with three angles instead
  of six is not discarded; it changes the measured angles of the first three joints.
\<close>

theorem short_fetch_is_applied:
  "length [JNum 1, JNum 2, JNum 3] \<noteq> length JOINTS \<and>
   angles (app_run [Settled 0 (Resolve (JBool True)), Settled 0 (Resolve JNull), Tick,
                    Settled 0 (Resolve (JArr [JNum 1, JNum 2, JNum 3]))] App) =
     [JNum 1, JNum 2, JNum 3, JNum 0, JNum 0, JNum 0]"
  by (simp add: App_def JOINTS_def invoke_def init_def remove_nth_def get_angles_then_def
      array_set_def numeral_eq_Suc)

subsection \<open>Fetches in flight (C7)\<close>

text \<open>
  C7, as amended. The polling timer does not look at the fetches still in flight: with a
  timer running, every tick invokes \<^verbatim>\<open>get_angles\<close>, so each tick adds one fetch to those
  in flight, and \<open>n\<close> ticks with no answer in between add \<open>n\<close>.
\<close>

theorem every_tick_fetches:
  "0 < intervals s \<longrightarrow>
     app_step Tick s = invoke GetAngles s \<and>
     fetches_in_flight (app_step Tick s) = Suc (fetches_in_flight s) \<and>
     fetches_in_flight (app_run (replicate n Tick) s) = fetches_in_flight s + n"
  by (simp add: ticks_accumulate) (simp add: invoke_def fetches_in_flight_def)

text \<open>Three ticks after initialization, no answer yet.\<close>

theorem every_tick_fetches_witness:
  "0 < intervals (app_run [Settled 0 (Resolve (JBool True)), Settled 0 (Resolve JNull)] App) \<and>
   fetches_in_flight (app_run (replicate 3 Tick)
      (app_run [Settled 0 (Resolve (JBool True)), Settled 0 (Resolve JNull)] App)) = 3"
  using every_tick_fetches [of "app_run [Settled 0 (Resolve (JBool True)), Settled 0 (Resolve JNull)] App" 3]
  by (simp only: app_ready) (simp add: fetches_in_flight_def invoke_def numeral_eq_Suc)

text \<open>
  C7 as stated fails: two ticks before the first answer leave two fetches in flight.
\<close>

theorem two_fetches_in_flight:
  "fetches_in_flight (app_run [Settled 0 (Resolve (JBool True)), Settled 0 (Resolve JNull), Tick, Tick] App) = 2"
  by (simp add: App_def JOINTS_def invoke_def init_def remove_nth_def fetches_in_flight_def)

subsection \<open>When polling starts (C6)\<close>

text \<open>
  C6, as amended. In App.svelte a telemetry fetch is only ever issued after the backend's
  \<^verbatim>\<open>init\<close> has been invoked and has succeeded: whenever \<^verbatim>\<open>get_angles\<close> has been
  invoked, \<open>initialized\<close> is set and \<^verbatim>\<open>init\<close> was invoked before. A polling timer is
  started by nothing but a successful answer to \<^verbatim>\<open>init\<close>, and \<^verbatim>\<open>init\<close> is invoked by
  nothing but a truthy answer to \<^verbatim>\<open>is_connected\<close> or a successful answer to
  \<^verbatim>\<open>connect\<close>. No timer is ever stopped: the number of running timers never goes
  down. The poller tests nothing: with a timer running, a tick issues the fetch whatever
  \<open>connected_flag\<close> and \<open>initialized\<close> are. The two buttons of App.svelte exist only
  in the matching state, Calibrate All while connected and initialized and Connect while
  not connected; in any other state they are not there to be pressed, and nothing
  happens and nothing is reported. \<^verbatim>\<open>moveTo\<close> and \<^verbatim>\<open>stop\<close> of a joint control have no
  session state to look at and invoke the backend in every state. No tick and no user
  operation reports an error: an alert or a console error only ever appears when a
  backend promise settles.
\<close>

theorem polling_starts_after_init:
  "(GetAngles \<in> set (invoked (app_run evs App)) \<longrightarrow>
      initialized (app_run evs App) \<and> Init \<in> set (invoked (app_run evs App))) \<and>
   (intervals (app_step ev s) \<noteq> intervals s \<longrightarrow>
      (\<exists>k v. ev = Settled k (Resolve v) \<and> k < length (pending s) \<and> pending s ! k = Init)) \<and>
   (count_list (invoked (app_step ev s)) Init \<noteq> count_list (invoked s) Init \<longrightarrow>
      (\<exists>k v. ev = Settled k (Resolve v) \<and> k < length (pending s) \<and>
         (pending s ! k = IsConnected \<and> truthy v \<or> (\<exists>p b. pending s ! k = Connect p b)))) \<and>
   (0 < intervals s \<longrightarrow>
      invoked (app_step Tick s) = invoked s @ [GetAngles] \<and>
      alerts (app_step Tick s) = alerts s \<and>
      console_errors (app_step Tick s) = console_errors s) \<and>
   intervals s \<le> intervals (app_step ev s) \<and>
   intervals s \<le> intervals (app_run evs s) \<and>
   (connected_flag s \<and> initialized s \<longrightarrow> app_step ClickCalibrate s = invoke (Calibrate 63) s) \<and>
   (\<not> (connected_flag s \<and> initialized s) \<longrightarrow> app_step ClickCalibrate s = s) \<and>
   (\<not> connected_flag s \<longrightarrow>
      app_step ClickConnect s = invoke (Connect (portName s) (baudRate s)) s) \<and>
   (connected_flag s \<longrightarrow> app_step ClickConnect s = s) \<and>
   ((\<forall>k r. ev \<noteq> Settled k r) \<longrightarrow>
      alerts (app_step ev s) = alerts s \<and> console_errors (app_step ev s) = console_errors s) \<and>
   ((\<forall>k r. jev \<noteq> JcSettled k r) \<longrightarrow>
      jc_console_errors (jc_step jev js) = jc_console_errors js) \<and>
   moveTo (Some a) (Some v) js = (Fulfilled (), jc_invoke (MoveJoint (id_prop js) a v) js) \<and>
   stop js = (Fulfilled (), jc_invoke (StopJoint (id_prop js)) js)"
proof (intro conjI)
  have "app_inv (app_run evs App)" by (rule app_run_inv[OF App_inv])
  then show "GetAngles \<in> set (invoked (app_run evs App)) \<longrightarrow>
      initialized (app_run evs App) \<and> Init \<in> set (invoked (app_run evs App))"
    by (simp add: app_inv_def)
next
  show "intervals (app_step ev s) \<noteq> intervals s \<longrightarrow>
      (\<exists>k v. ev = Settled k (Resolve v) \<and> k < length (pending s) \<and> pending s ! k = Init)"
  proof (cases ev)
    case (Settled k r)
    then show ?thesis
      using app_settle_intervals[of "pending s ! k" r "s\<lparr>pending := remove_nth k (pending s)\<rparr>"]
      by (auto split: if_splits)
  qed (simp_all add: invoke_def)
next
  show "count_list (invoked (app_step ev s)) Init \<noteq> count_list (invoked s) Init \<longrightarrow>
      (\<exists>k v. ev = Settled k (Resolve v) \<and> k < length (pending s) \<and>
         (pending s ! k = IsConnected \<and> truthy v \<or> (\<exists>p b. pending s ! k = Connect p b)))"
  proof (cases ev)
    case (Settled k r)
    then show ?thesis
      using app_settle_calls_init[of "pending s ! k" r "s\<lparr>pending := remove_nth k (pending s)\<rparr>"]
      by (auto split: if_splits)
  qed (simp_all add: invoke_def)
next
  show "0 < intervals s \<longrightarrow>
      invoked (app_step Tick s) = invoked s @ [GetAngles] \<and>
      alerts (app_step Tick s) = alerts s \<and>
      console_errors (app_step Tick s) = console_errors s"
    by (simp add: invoke_def)
next
  show "intervals s \<le> intervals (app_step ev s)"
    by (rule app_step_intervals_mono)
next
  show "intervals s \<le> intervals (app_run evs s)"
    by (rule app_run_intervals_mono)
next
  show "connected_flag s \<and> initialized s \<longrightarrow> app_step ClickCalibrate s = invoke (Calibrate 63) s"
    by simp
next
  show "\<not> (connected_flag s \<and> initialized s) \<longrightarrow> app_step ClickCalibrate s = s"
    by simp
next
  show "\<not> connected_flag s \<longrightarrow>
      app_step ClickConnect s = invoke (Connect (portName s) (baudRate s)) s"
    by simp
next
  show "connected_flag s \<longrightarrow> app_step ClickConnect s = s"
    by simp
next
  show "(\<forall>k r. ev \<noteq> Settled k r) \<longrightarrow>
      alerts (app_step ev s) = alerts s \<and> console_errors (app_step ev s) = console_errors s"
    by (rule app_step_quiet)
next
  show "(\<forall>k r. jev \<noteq> JcSettled k r) \<longrightarrow>
      jc_console_errors (jc_step jev js) = jc_console_errors js"
    by (rule jc_step_quiet)
next
  show "moveTo (Some a) (Some v) js = (Fulfilled (), jc_invoke (MoveJoint (id_prop js) a v) js)"
    by (simp add: moveTo_def)
next
  show "stop js = (Fulfilled (), jc_invoke (StopJoint (id_prop js)) js)"
    by (simp add: stop_def)
qed

text \<open>
  The backend reports a connection, \<^verbatim>\<open>init\<close> succeeds, the timer ticks once.
\<close>

theorem polling_starts_after_init_witness:
  "GetAngles \<in> set (invoked (app_run [Settled 0 (Resolve (JBool True)), Settled 0 (Resolve JNull), Tick] App)) \<and>
   initialized (app_run [Settled 0 (Resolve (JBool True)), Settled 0 (Resolve JNull), Tick] App) \<and>
   intervals (app_step (Settled 0 (Resolve JNull)) (app_step (Settled 0 (Resolve (JBool True))) App)) \<noteq>
     intervals (app_step (Settled 0 (Resolve (JBool True))) App) \<and>
   count_list (invoked (app_step (Settled 0 (Resolve (JBool True))) App)) Init \<noteq> count_list (invoked App) Init"
  using polling_starts_after_init
      [of "[Settled 0 (Resolve (JBool True)), Settled 0 (Resolve JNull), Tick]"
          "Settled 0 (Resolve JNull)" "app_step (Settled 0 (Resolve (JBool True))) App"]
    polling_starts_after_init [of "[]" "Settled 0 (Resolve (JBool True))" App]
  by (simp add: App_def JOINTS_def invoke_def init_def remove_nth_def)

text \<open>
  C6 as stated fails in the earlier versions. The version that only polls issues a fetch
  on its first tick, with nothing invoked before it; the version that connects by itself
  goes on to \<^verbatim>\<open>init\<close> and to polling after \<^verbatim>\<open>connect\<close> was rejected.
\<close>

theorem polling_without_session:
  "invoked_v2 App_v2 = [] \<and>
   invoked_v2 (run_v2 [Tick_v2] App_v2) = [GetPosition] \<and>
   invoked_v1 (run_v1 [Settled_v1 0 (Reject (JStr ''no port'')), Settled_v1 0 (Resolve JNull), Tick_v1] App_v1) =
     [Connect ''/dev/ttyCobot0'' (Some 115200), Init, GetPosition]"
  by (simp add: App_v2_def App_v1_def invoke_v2_def invoke_v1_def init_v1_def remove_nth_def)

text \<open>
  In App.svelte itself polling can go on without a connection: the user connects while
  the answer to \<^verbatim>\<open>is_connected\<close> is still due, so \<^verbatim>\<open>init\<close> is invoked twice; the
  first succeeds and starts the timer, the second fails and disconnects.
\<close>

lemma polling_outlives_connection:
  "connected_flag (app_run [ClickConnect, Settled 1 (Resolve JNull), Settled 0 (Resolve (JBool True)),
      Settled 0 (Resolve JNull), Settled 0 (Reject (JStr ''fault'')), Settled 0 (Resolve JNull)] App) = False \<and>
   pending (app_run [ClickConnect, Settled 1 (Resolve JNull), Settled 0 (Resolve (JBool True)),
      Settled 0 (Resolve JNull), Settled 0 (Reject (JStr ''fault'')), Settled 0 (Resolve JNull), Tick] App) = [GetAngles]"
  by (simp add: App_def JOINTS_def invoke_def init_def remove_nth_def)

subsection \<open>Failure of the initialization (C8)\<close>







text \<open>After that, no event at all changes the state any more.\<close>

lemma rejected_disconnect_is_final:
  "app_run evs
     (app_run [Settled 0 (Resolve (JBool True)), Settled 0 (Reject (JStr ''fault'')),
               Settled 0 (Reject (JStr ''port lost''))] App) =
   app_run [Settled 0 (Resolve (JBool True)), Settled 0 (Reject (JStr ''fault'')),
            Settled 0 (Reject (JStr ''port lost''))] App"
proof -
  have st: "app_run [Settled 0 (Resolve (JBool True)), Settled 0 (Reject (JStr ''fault'')),
            Settled 0 (Reject (JStr ''port lost''))] App =
     \<lparr>angles = [JNum 0, JNum 0, JNum 0, JNum 0, JNum 0, JNum 0], connected_flag = True,
      initialized = False, portName = ''/dev/ttyCobot0'', baudRate = Some 115200, intervals = 0,
      pending = [], invoked = [IsConnected, Init, Disconnect], alerts = [JStr ''fault''],
      console_errors = []\<rparr>"
    by (simp add: App_def JOINTS_def invoke_def init_def remove_nth_def)
  show ?thesis
    by (simp only: st) (rule stuck_run; simp)
qed

section \<open>Properties of the calibration request (C9)\<close>

lemma drop_bit_nonzero_iff:
  "drop_bit n (m::nat) \<noteq> 0 \<longleftrightarrow> (\<exists>i. n \<le> i \<and> bit m i)"
proof
  assume "drop_bit n m \<noteq> 0"
  then obtain j where "bit (drop_bit n m) j"
    by (auto simp: bit_eq_iff)
  then have "bit m (n + j)" by (simp add: bit_drop_bit_eq)
  then show "\<exists>i. n \<le> i \<and> bit m i" by (intro exI[of _ "n + j"]) simp
next
  assume "\<exists>i. n \<le> i \<and> bit m i"
  then obtain i where i: "n \<le> i" "bit m i" by blast
  then have bd: "bit (drop_bit n m) (i - n)" by (simp add: bit_drop_bit_eq)
  show "drop_bit n m \<noteq> 0"
  proof
    assume "drop_bit n m = 0"
    with bd show False by simp
  qed
qed

lemma nonzero_has_bit: "(m::nat) \<noteq> 0 \<Longrightarrow> \<exists>i. bit m i"
  by (auto simp: bit_eq_iff)

text \<open>
  C9. For every mask, \<^verbatim>\<open>calibrate\<close> fails with no request submitted if the mask is 0 or
  has a bit set at a position that is not a joint index (6 or above); otherwise it
  submits exactly one request, which carries the mask and so covers exactly the joints
  the mask selects, of which there is at least one. The front end's one calibration
  call, the Calibrate All button, invokes \<^verbatim>\<open>calibrate\<close> once with the mask 63, which
  passes this validation and selects the joints 0 to 5.
\<close>

theorem calibrate_checks_mask:
  "(joint_mask = 0 \<or> (\<exists>i. length JOINTS \<le> i \<and> bit joint_mask i) \<longrightarrow>
      calibrate joint_mask = Inl ValidationFailure) \<and>
   (joint_mask \<noteq> 0 \<and> (\<forall>i. bit joint_mask i \<longrightarrow> i < length JOINTS) \<longrightarrow>
      calibrate joint_mask = Inr [Calibrate joint_mask] \<and>
      selected_joints (length JOINTS) joint_mask \<noteq> [] \<and>
      (\<forall>i. bit joint_mask i \<longleftrightarrow> i \<in> set (selected_joints (length JOINTS) joint_mask))) \<and>
   (connected_flag s \<and> initialized s \<longrightarrow>
      app_step ClickCalibrate s = invoke (Calibrate 63) s) \<and>
   calibrate 63 = Inr [Calibrate 63] \<and>
   selected_joints (length JOINTS) 63 = [0, 1, 2, 3, 4, 5]"
proof (intro conjI impI)
  assume "joint_mask = 0 \<or> (\<exists>i. length JOINTS \<le> i \<and> bit joint_mask i)"
  then show "calibrate joint_mask = Inl ValidationFailure"
    unfolding calibrate_def using drop_bit_nonzero_iff[of "length JOINTS" joint_mask] by auto
next
  assume a: "joint_mask \<noteq> 0 \<and> (\<forall>i. bit joint_mask i \<longrightarrow> i < length JOINTS)"
  then have "\<not> (\<exists>i. length JOINTS \<le> i \<and> bit joint_mask i)" by auto
  with a show "calibrate joint_mask = Inr [Calibrate joint_mask]"
    unfolding calibrate_def using drop_bit_nonzero_iff[of "length JOINTS" joint_mask] by auto
  from a show mem: "\<forall>i. bit joint_mask i \<longleftrightarrow> i \<in> set (selected_joints (length JOINTS) joint_mask)"
    by (auto simp: selected_joints_def)
  from a nonzero_has_bit[of joint_mask] mem
  show "selected_joints (length JOINTS) joint_mask \<noteq> []" by fastforce
next
  assume "connected_flag s \<and> initialized s"
  then show "app_step ClickCalibrate s = invoke (Calibrate 63) s" by simp
next
  show "calibrate 63 = Inr [Calibrate 63]"
    by (simp add: calibrate_def JOINTS_def drop_bit_eq_div)
next
  show "selected_joints (length JOINTS) 63 = [0, 1, 2, 3, 4, 5]"
    by (simp add: selected_joints_def JOINTS_def upt_rec bit_iff_odd)
qed

text \<open>
  The empty mask and the mask with bit 6 set fail; the mask 5 (joints 0 and 2) is
  submitted; the button is pressed in a connected and initialized session.
\<close>

theorem calibrate_checks_mask_witness:
  "calibrate 0 = Inl ValidationFailure \<and> bit (64::nat) 6 \<and> calibrate 64 = Inl ValidationFailure \<and>
   (5::nat) \<noteq> 0 \<and> calibrate 5 = Inr [Calibrate 5] \<and>
   app_step ClickCalibrate (App\<lparr>connected_flag := True, initialized := True\<rparr>) =
     invoke (Calibrate 63) (App\<lparr>connected_flag := True, initialized := True\<rparr>)"
proof -
  let ?s = "App\<lparr>connected_flag := True, initialized := True\<rparr>"
  have len: "length JOINTS = 6"
    by (simp add: JOINTS_def)
  have b: "bit (64::nat) 6"
    by (simp add: bit_iff_odd)
  have "drop_bit 6 (5::nat) = 0"
    by (simp add: drop_bit_eq_div)
  then have "\<not> (\<exists>i. 6 \<le> i \<and> bit (5::nat) i)"
    using drop_bit_nonzero_iff[of 6 5] by simp
  then have "\<forall>i. bit (5::nat) i \<longrightarrow> i < 6"
    by (meson not_le)
  then have five: "(5::nat) \<noteq> 0 \<and> (\<forall>i. bit (5::nat) i \<longrightarrow> i < length JOINTS)"
    unfolding len by simp
  from b have sixtyfour: "(64::nat) = 0 \<or> (\<exists>i. length JOINTS \<le> i \<and> bit (64::nat) i)"
    unfolding len by blast
  have zero: "(0::nat) = 0 \<or> (\<exists>i. length JOINTS \<le> i \<and> bit (0::nat) i)"
    by (rule disjI1) (rule refl)
  have ready: "connected_flag ?s \<and> initialized ?s"
    by simp
  note c0 = calibrate_checks_mask [of 0 ?s, THEN conjunct1, THEN mp, OF zero]
  note c64 = calibrate_checks_mask [of 64 ?s, THEN conjunct1, THEN mp, OF sixtyfour]
  note c5 = calibrate_checks_mask [of 5 ?s, THEN conjunct2, THEN conjunct1, THEN mp, OF five, THEN conjunct1]
  note btn = calibrate_checks_mask [of 5 ?s, THEN conjunct2, THEN conjunct2, THEN conjunct1, THEN mp, OF ready]
  from five have nz: "(5::nat) \<noteq> 0"
    by (rule conjunct1)
  show ?thesis
    by (intro conjI c0 b c64 nz c5 btn)
qed

section \<open>Properties of the earlier versions (C10)\<close>

lemma forEach_self_id: "forEach_self i n arr = arr"
  by (induction n arbitrary: i arr) (simp_all add: array_set_def)

lemma get_position_then_id: "get_position_then r outer = (r, outer)"
  by (cases r) (simp_all add: get_position_then_def forEach_self_id)

lemma settle_v1_angles: "angles_v1 (settle_v1 c r s) = angles_v1 s"
  by (cases "(c, r, s)" rule: settle_v1.cases) (simp_all add: invoke_v1_def get_position_then_id)

lemma step_v1_angles: "angles_v1 (step_v1 ev s) = angles_v1 s"
  by (cases ev) (simp_all add: settle_v1_angles invoke_v1_def init_v1_def)

lemma run_v1_angles: "angles_v1 (run_v1 evs s) = angles_v1 s"
  by (induction evs arbitrary: s) (simp_all add: step_v1_angles)

lemma settle_v2_angles: "angles_v2 (settle_v2 c r s) = angles_v2 s"
  by (cases "(c, r, s)" rule: settle_v2.cases) (simp_all add: get_position_then_id)

lemma step_v2_angles: "angles_v2 (step_v2 ev s) = angles_v2 s"
  by (cases ev) (simp_all add: settle_v2_angles invoke_v2_def)

lemma run_v2_angles: "angles_v2 (run_v2 evs s) = angles_v2 s"
  by (induction evs arbitrary: s) (simp_all add: step_v2_angles)

text \<open>
  C10. In both earlier versions the angle array of the component is, after any sequence
  of ticks, timeouts and backend answers (successful or not), still the array of six
  zeros it was created as. The polling callback leaves the component's array alone
  and hands back the fetched value as it got it: its loop writes every element of the
  fetched array into the position it was read from.
\<close>

theorem shadowed_poll_changes_nothing:
  "angles_v1 (run_v1 evs1 App_v1) = replicate (length JOINTS) (JNum 0) \<and>
   angles_v2 (run_v2 evs2 App_v2) = replicate (length JOINTS) (JNum 0) \<and>
   get_position_then r outer = (r, outer) \<and>
   forEach_self 0 (length xs) xs = xs"
  by (simp add: run_v1_angles run_v2_angles get_position_then_id forEach_self_id
      App_v1_def App_v2_def init_v1_def invoke_v1_def)

text \<open>A successful poll with six new angles in each of the two versions.\<close>

theorem shadowed_poll_changes_nothing_witness:
  "angles_v1 (run_v1 [Settled_v1 0 (Resolve JNull), Settled_v1 0 (Resolve JNull), Tick_v1,
        Settled_v1 0 (Resolve (JArr [JNum 1, JNum 2, JNum 3, JNum 4, JNum 5, JNum 6]))] App_v1) =
     [JNum 0, JNum 0, JNum 0, JNum 0, JNum 0, JNum 0] \<and>
   angles_v2 (run_v2 [Tick_v2,
        Settled_v2 0 (Resolve (JArr [JNum 1, JNum 2, JNum 3, JNum 4, JNum 5, JNum 6]))] App_v2) =
     [JNum 0, JNum 0, JNum 0, JNum 0, JNum 0, JNum 0]"
  using shadowed_poll_changes_nothing
      [of "[Settled_v1 0 (Resolve JNull), Settled_v1 0 (Resolve JNull), Tick_v1,
            Settled_v1 0 (Resolve (JArr [JNum 1, JNum 2, JNum 3, JNum 4, JNum 5, JNum 6]))]"
          "[Tick_v2, Settled_v2 0 (Resolve (JArr [JNum 1, JNum 2, JNum 3, JNum 4, JNum 5, JNum 6]))]"
          JNull "[]" "[]"]
  by (simp add: JOINTS_def numeral_eq_Suc)

end
